theory Spec2Isabelle
  imports Main "HOL-Library.Sublist" "HOL-Library.AList"
begin

section \<open>Scarecrow: listener orchestration and command interception\<close>

text \<open>
  A shallow embedding of the parent object of \<^verbatim>\<open>src/cmd/scarecrow/main.go\<close> (package
  \<^verbatim>\<open>scarecrow\<close>): \<^verbatim>\<open>StartAllBots\<close>, \<^verbatim>\<open>Shutdown\<close>, \<^verbatim>\<open>IsAdmin\<close>, \<^verbatim>\<open>OnMessage\<close> and
  \<^verbatim>\<open>OnStopped\<close>. Go strings are byte sequences and become
  \<^typ>\<open>string\<close>; the mutable receiver \<^verbatim>\<open>self\<close> becomes a record that every method
  takes and returns; what a method does to the outside world (channel sends, calls to
  collaborators, goroutines started) is recorded, in program order, as a list of events;
  \<^verbatim>\<open>os.Exit\<close> is a returned exit status.
\<close>

subsection \<open>Data model\<close>

text \<open>
  Modelled from the spec: the package \<^verbatim>\<open>types\<close> that declares the envelope variants
  and the listener configuration is not among the sources. Section 6 of the
  specification gives the variants field by field, and the code reads the fields
  \<^verbatim>\<open>Id\<close>, \<^verbatim>\<open>Type\<close> and \<^verbatim>\<open>Enabled\<close> of a listener configuration.
\<close>

record ReplyRequest =
  Listener :: string
  Username :: string
  BotUsername :: string
  Message :: string
  GroupChat :: bool

record ReplyAnswer =
  answer_Username :: string
  answer_Message :: string

record Stopped =
  ListenerId :: string

record ListenerConfig =
  listener_Id :: string
  listener_Type :: string
  listener_Enabled :: bool

text \<open>
  The struct \<^verbatim>\<open>Scarecrow\<close>, restricted to the fields the methods below read or write:
  \<^verbatim>\<open>DB.Ready\<close>, \<^verbatim>\<open>AdminsConfig.Admins\<close>, \<^verbatim>\<open>BotsConfig.Listeners\<close> and the map
  \<^verbatim>\<open>Listeners\<close>. The Go map is an association list: \<^verbatim>\<open>m[k] = v\<close> is
  \<^const>\<open>AList.update\<close>, \<^verbatim>\<open>delete(m, k)\<close> is \<^const>\<open>AList.delete\<close>, a lookup is
  \<^const>\<open>map_of\<close>, and \<^verbatim>\<open>range\<close> visits the entries in the order of the list (Go leaves
  the order open; no result below depends on it). A constructed listener is represented
  by the configuration it was constructed from.
\<close>

record Scarecrow =
  DB_Ready :: bool
  Admins :: "string list"
  BotsConfig_Listeners :: "ListenerConfig list"
  Listeners :: "(string \<times> ListenerConfig) list"

text \<open>The effects of the methods, as they appear in the source.\<close>

datatype event =
    InitBrain
      \<comment> \<open>\<^verbatim>\<open>self.InitBrain()\<close>\<close>
  | SaveAdminsConfig "string list"
      \<comment> \<open>\<^verbatim>\<open>self.SaveAdminsConfig(self.AdminsConfig)\<close>\<close>
  | LogTransaction string string string string
      \<comment> \<open>\<^verbatim>\<open>self.LogTransaction(uid, input, req.BotUsername, reply)\<close>\<close>
  | Call_GetReply string string string bool
      \<comment> \<open>\<^verbatim>\<open>self.GetReply(req.BotUsername, uid, req.Message, req.GroupChat)\<close>\<close>
  | Send_res ReplyAnswer
      \<comment> \<open>\<^verbatim>\<open>res <- types.CommunicationChannel{Data: &types.ReplyAnswer{...}}\<close>\<close>
  | Send_Stop string
      \<comment> \<open>\<^verbatim>\<open>bot.InputChannel() <- types.CommunicationChannel{Data: &types.Stop{}}\<close>,
          for the listener stored under the given id\<close>
  | Go_ManageListener string
      \<comment> \<open>\<^verbatim>\<open>go self.ManageListener(request, answer)\<close>, for the listener of the given id\<close>
  | Start string
      \<comment> \<open>\<^verbatim>\<open>constructor.Start()\<close>, for the listener of the given id\<close>

subsection \<open>The library functions the handler calls\<close>

text \<open>
  \<^verbatim>\<open>strings.Index(s, substr)\<close>: the index of the first occurrence of \<^verbatim>\<open>substr\<close> in
  \<^verbatim>\<open>s\<close>, or \<open>-1\<close>.
\<close>

fun Index :: "string \<Rightarrow> string \<Rightarrow> int" where
  "Index [] substr = (if substr = [] then 0 else - 1)"
| "Index (c # s) substr =
     (if prefix substr (c # s) then 0
      else (let i = Index s substr in if i < 0 then - 1 else i + 1))"

text \<open>
  \<^verbatim>\<open>strings.Trim(s, cutset)\<close>: \<^verbatim>\<open>s\<close> without the leading and trailing characters that
  occur in \<^verbatim>\<open>cutset\<close>. (Go works on code points; for a cutset of ASCII characters, which
  never occur inside a multi-byte UTF-8 sequence, that is the same as working on bytes.)
\<close>

definition Trim :: "string \<Rightarrow> string \<Rightarrow> string" where
  "Trim s cutset =
     rev (dropWhile (\<lambda>c. c \<in> set cutset) (rev (dropWhile (\<lambda>c. c \<in> set cutset) s)))"

text \<open>
  The character class \<^verbatim>\<open>[A-Za-z0-9\.@\-_]\<close> and the pattern \<^verbatim>\<open>[A-Za-z0-9\.@\-_]+?\<close>
  matched against a whole string. Every member of the class is ASCII, so no byte of a
  multi-byte code point is in it.
\<close>

definition name_class :: "char \<Rightarrow> bool" where
  "name_class c \<longleftrightarrow>
     c \<in> set ''ABCDEFGHIJKLMNOPQRSTUVWXYZabcdefghijklmnopqrstuvwxyz0123456789.@-_''"

definition name_pattern :: "string \<Rightarrow> bool" where
  "name_pattern name \<longleftrightarrow> name \<noteq> [] \<and> list_all name_class name"

text \<open>
  \<^verbatim>\<open>RE_OP.FindStringSubmatch(input)\<close> for \<^verbatim>\<open>^!op ([A-Za-z0-9\.@\-_]+?)$\<close>, and the same
  for \<^verbatim>\<open>RE_DEOP\<close>. Without the multi-line flag \<^verbatim>\<open>^\<close> and \<^verbatim>\<open>$\<close> match only at the two
  ends of the text, so the pattern matches the whole input or nothing, and the group is
  what follows the command word and its single space. The result is the slice of the
  whole match and the group, or the empty slice when there is no match.
\<close>

definition FindStringSubmatch :: "string \<Rightarrow> string \<Rightarrow> string list" where
  "FindStringSubmatch command input =
     (let n = length command + 1; name = drop n input
      in if take n input = command @ '' '' \<and> name_pattern name then [input, name] else [])"

definition RE_OP_FindStringSubmatch :: "string \<Rightarrow> string list" where
  "RE_OP_FindStringSubmatch = FindStringSubmatch ''!op''"

definition RE_DEOP_FindStringSubmatch :: "string \<Rightarrow> string list" where
  "RE_DEOP_FindStringSubmatch = FindStringSubmatch ''!deop''"

subsection \<open>Shutdown and IsAdmin\<close>

text \<open>\<^verbatim>\<open>Shutdown\<close>: a \<^verbatim>\<open>Stop\<close> envelope to the input channel of every stored listener.\<close>

definition Shutdown :: "Scarecrow \<Rightarrow> event list" where
  "Shutdown self = map (\<lambda>(id, bot). Send_Stop id) (Listeners self)"

text \<open>\<^verbatim>\<open>IsAdmin\<close>: the loop over \<^verbatim>\<open>self.AdminsConfig.Admins\<close>, returning at the first equal entry.\<close>

fun IsAdmin_loop :: "string list \<Rightarrow> string \<Rightarrow> bool" where
  "IsAdmin_loop [] username = False"
| "IsAdmin_loop (user # rest) username =
     (if user = username then True else IsAdmin_loop rest username)"

definition IsAdmin :: "Scarecrow \<Rightarrow> string \<Rightarrow> bool" where
  "IsAdmin self username = IsAdmin_loop (Admins self) username"

subsection \<open>OnMessage\<close>

text \<open>
  The routing identity, \<^verbatim>\<open>fmt.Sprintf("%s-%s", req.Listener, strings.ToLower(req.Username))\<close>,
  and the trimmed input, \<^verbatim>\<open>strings.Trim(req.Message, " ")\<close>. \<^verbatim>\<open>strings.ToLower\<close>
  lower-cases every Unicode letter, which on UTF-8 bytes needs the Unicode tables; it is
  a parameter here, so every result holds whatever it computes.
\<close>

definition routing_uid :: "(string \<Rightarrow> string) \<Rightarrow> string \<Rightarrow> string \<Rightarrow> string" where
  "routing_uid ToLower listener username = listener @ ''-'' @ ToLower username"

definition trimmed_input :: "ReplyRequest \<Rightarrow> string" where
  "trimmed_input req = Trim (Message req) '' ''"

text \<open>
  The loop of the \<^verbatim>\<open>!deop\<close> branch, which appends to \<^verbatim>\<open>newAdmins\<close> every name different
  from \<^verbatim>\<open>opName\<close>.
\<close>

fun deop_loop :: "string list \<Rightarrow> string \<Rightarrow> string list \<Rightarrow> string list" where
  "deop_loop [] opName newAdmins = newAdmins"
| "deop_loop (name # rest) opName newAdmins =
     (if name \<noteq> opName then deop_loop rest opName (newAdmins @ [name])
      else deop_loop rest opName newAdmins)"

text \<open>
  \<^verbatim>\<open>OnMessage\<close>. The method \<^verbatim>\<open>GetReply\<close> of the reply engine is not among the sources
  and is a parameter, as \<^verbatim>\<open>strings.ToLower\<close> is. The admin block yields the new state,
  the reply, its effects and whether \<^verbatim>\<open>defer self.Shutdown()\<close> was executed; the deferred
  call runs when the method returns, that is after the send on \<^verbatim>\<open>res\<close>.
\<close>

definition OnMessage ::
  "(string \<Rightarrow> string) \<Rightarrow> (string \<Rightarrow> string \<Rightarrow> string \<Rightarrow> bool \<Rightarrow> string) \<Rightarrow>
   Scarecrow \<Rightarrow> ReplyRequest \<Rightarrow> Scarecrow \<times> event list" where
  "OnMessage ToLower GetReply self req =
     (let uid = routing_uid ToLower (Listener req) (Username req);
          input = trimmed_input req;
          (self', reply, effects, deferred) =
            (if IsAdmin self uid then
               (if Index input ''!reload'' = 0 then
                  (self, ''Brain reloaded!'', [InitBrain], False)
                else if Index input ''!op'' = 0 then
                  (let match = RE_OP_FindStringSubmatch input in
                   if length match > 0 then
                     (let opName = match ! 1;
                          self1 = self\<lparr>Admins := Admins self @ [opName]\<rparr>
                      in (self1, opName @ '' added to the admins list.'',
                          [SaveAdminsConfig (Admins self1)], False))
                   else (self, ''Syntax error.'', [], False))
                else if Index input ''!deop'' = 0 then
                  (let match = RE_DEOP_FindStringSubmatch input in
                   if length match > 0 then
                     (let opName = match ! 1;
                          newAdmins = deop_loop (Admins self) opName [];
                          self1 = self\<lparr>Admins := newAdmins\<rparr>
                      in (self1, opName @ '' removed from the admins list.'',
                          [SaveAdminsConfig (Admins self1)], False))
                   else (self, ''Syntax error.'', [], False))
                else if Index input ''!halt'' = 0 then
                  (self, ''Shutting down...'', [], True)
                else (self, '''', [], False))
             else (self, '''', [], False));
          (reply', effects') =
            (if reply = '''' then
               (GetReply (BotUsername req) uid (Message req) (GroupChat req),
                [Call_GetReply (BotUsername req) uid (Message req) (GroupChat req)])
             else (reply, [LogTransaction uid input (BotUsername req) reply]))
      in (self',
          effects @ effects'
            @ [Send_res \<lparr>answer_Username = Username req, answer_Message = reply'\<rparr>]
            @ (if deferred then Shutdown self' else [])))"

subsection \<open>StartAllBots\<close>

text \<open>
  The loop of \<^verbatim>\<open>StartAllBots\<close> over \<^verbatim>\<open>self.BotsConfig.Listeners\<close>. The registry
  function \<^verbatim>\<open>listeners.Create\<close> is not among the sources; the parameter \<open>Create\<close>
  says for which configurations it returns a listener and no error. The result is the
  state, the effects so far, and the exit status when \<^verbatim>\<open>os.Exit\<close> was called.
\<close>

fun StartAllBots_loop ::
  "(ListenerConfig \<Rightarrow> bool) \<Rightarrow> ListenerConfig list \<Rightarrow> Scarecrow \<Rightarrow> event list \<Rightarrow>
   Scarecrow \<times> event list \<times> int option" where
  "StartAllBots_loop Create [] self effects = (self, effects, None)"
| "StartAllBots_loop Create (listener # rest) self effects =
     (if listener_Enabled listener = False then StartAllBots_loop Create rest self effects
      else if map_of (Listeners self) (listener_Id listener) \<noteq> None then
        (self, effects, Some 1)
      else if \<not> Create listener then StartAllBots_loop Create rest self effects
      else StartAllBots_loop Create rest
        (self\<lparr>Listeners := AList.update (listener_Id listener) listener (Listeners self)\<rparr>)
        (effects @ [Go_ManageListener (listener_Id listener), Start (listener_Id listener)]))"

definition StartAllBots ::
  "(ListenerConfig \<Rightarrow> bool) \<Rightarrow> Scarecrow \<Rightarrow> Scarecrow \<times> event list \<times> int option" where
  "StartAllBots Create self =
     (if \<not> DB_Ready self then (self, [], None)
      else StartAllBots_loop Create (BotsConfig_Listeners self) self [])"

subsection \<open>OnStopped\<close>

text \<open>
  \<^verbatim>\<open>OnStopped\<close>: the entry is deleted, and \<^verbatim>\<open>os.Exit(0)\<close> is called when
  \<^verbatim>\<open>len(self.Listeners) == 0\<close> afterwards.
\<close>

definition OnStopped :: "Scarecrow \<Rightarrow> Stopped \<Rightarrow> Scarecrow \<times> int option" where
  "OnStopped self ev =
     (let self' = self\<lparr>Listeners := AList.delete (ListenerId ev) (Listeners self)\<rparr>
      in if length (Listeners self') = 0 then (self', Some 0) else (self', None))"

subsection \<open>Notions used to state the properties\<close>

text \<open>The registrations of a list that \<^verbatim>\<open>StartAllBots\<close> activates, and what activating them does.\<close>

definition activated :: "(ListenerConfig \<Rightarrow> bool) \<Rightarrow> ListenerConfig list \<Rightarrow> ListenerConfig list" where
  "activated Create ls = filter (\<lambda>l. listener_Enabled l \<and> Create l) ls"

definition start_events :: "ListenerConfig list \<Rightarrow> event list" where
  "start_events ls =
     concat (map (\<lambda>l. [Go_ManageListener (listener_Id l), Start (listener_Id l)]) ls)"

text \<open>The reply texts sent on the answer channel, in order.\<close>

fun sent_replies :: "event list \<Rightarrow> string list" where
  "sent_replies [] = []"
| "sent_replies (Send_res a # es) = answer_Message a # sent_replies es"
| "sent_replies (e # es) = sent_replies es"

text \<open>
  The specification's reading of step 2 of the message-handling algorithm, to compare
  with \<^const>\<open>trimmed_input\<close>: leading and trailing white space (spaces, tabs, newlines)
  removed.
\<close>

definition spec_whitespace :: "char \<Rightarrow> bool" where
  "spec_whitespace c \<longleftrightarrow> c = CHR '' '' \<or> c = CHR 0x09 \<or> c = CHR 0x0A"

definition spec_strip_whitespace :: "string \<Rightarrow> string" where
  "spec_strip_whitespace s = rev (dropWhile spec_whitespace (rev (dropWhile spec_whitespace s)))"

subsection \<open>Example values\<close>

text \<open>
  Concrete inputs on which the properties below are exercised: lower-casing of the ASCII
  letters (what \<^verbatim>\<open>strings.ToLower\<close> does on ASCII text), two listener configurations,
  a running bot with the admin \<^verbatim>\<open>console-bob\<close> and two active listeners, a bot before
  activation whose third registration repeats the id of the first, and a request
  arriving on the listener \<^verbatim>\<open>console\<close>.
\<close>

definition ToLower_ascii :: "string \<Rightarrow> string" where
  "ToLower_ascii =
     map (\<lambda>c. case map_of (zip ''ABCDEFGHIJKLMNOPQRSTUVWXYZ'' ''abcdefghijklmnopqrstuvwxyz'') c of
                 None \<Rightarrow> c | Some l \<Rightarrow> l)"

definition console_config :: ListenerConfig where
  "console_config = \<lparr>listener_Id = ''console'', listener_Type = ''Console'', listener_Enabled = True\<rparr>"

definition slack_config :: ListenerConfig where
  "slack_config = \<lparr>listener_Id = ''slack'', listener_Type = ''Slack'', listener_Enabled = True\<rparr>"

definition running_bot :: Scarecrow where
  "running_bot =
     \<lparr>DB_Ready = True, Admins = [''console-bob''],
      BotsConfig_Listeners = [console_config, slack_config],
      Listeners = [(''console'', console_config), (''slack'', slack_config)]\<rparr>"

definition duplicate_id_bot :: Scarecrow where
  "duplicate_id_bot =
     \<lparr>DB_Ready = True, Admins = [''console-bob''],
      BotsConfig_Listeners = [console_config, slack_config, console_config],
      Listeners = []\<rparr>"

definition console_request :: "string \<Rightarrow> string \<Rightarrow> ReplyRequest" where
  "console_request username message =
     \<lparr>Listener = ''console'', Username = username, BotUsername = ''Scarecrow'',
      Message = message, GroupChat = False\<rparr>"

section \<open>Properties\<close>

subsection \<open>Basic facts\<close>

lemma Index_eq_0: "Index s substr = 0 \<longleftrightarrow> prefix substr s"
proof (cases s)
  case Nil
  then show ?thesis by simp
next
  case (Cons c t)
  have "\<not> (let i = Index t substr in if i < 0 then - 1 else i + 1) = 0"
    by (simp add: Let_def)
  with Cons show ?thesis by simp
qed

lemma IsAdmin_loop_mem: "IsAdmin_loop admins username \<longleftrightarrow> username \<in> set admins"
  by (induction admins) auto

lemma deop_loop_filter:
  "deop_loop admins opName newAdmins = newAdmins @ filter (\<lambda>name. name \<noteq> opName) admins"
  by (induction admins arbitrary: newAdmins) auto

lemma OnMessage_not_admin:
  assumes "\<not> IsAdmin self (routing_uid ToLower (Listener req) (Username req))"
  shows "OnMessage ToLower GetReply self req =
    (self,
     [Call_GetReply (BotUsername req) (routing_uid ToLower (Listener req) (Username req))
        (Message req) (GroupChat req),
      Send_res \<lparr>answer_Username = Username req,
        answer_Message = GetReply (BotUsername req)
          (routing_uid ToLower (Listener req) (Username req)) (Message req) (GroupChat req)\<rparr>])"
  using assms by (simp add: OnMessage_def Let_def)

lemma IsAdmin_mem: "IsAdmin self username \<longleftrightarrow> username \<in> set (Admins self)"
  by (simp add: IsAdmin_def IsAdmin_loop_mem)

lemma RE_OP_match:
  "name_pattern name \<Longrightarrow> RE_OP_FindStringSubmatch (''!op '' @ name) = [''!op '' @ name, name]"
  by (simp add: RE_OP_FindStringSubmatch_def FindStringSubmatch_def)

lemma RE_DEOP_match:
  "name_pattern name \<Longrightarrow>
   RE_DEOP_FindStringSubmatch (''!deop '' @ name) = [''!deop '' @ name, name]"
  by (simp add: RE_DEOP_FindStringSubmatch_def FindStringSubmatch_def)

lemma FindStringSubmatch_nonempty:
  "FindStringSubmatch command input \<noteq> [] \<longleftrightarrow>
   (\<exists>name. input = command @ '' '' @ name \<and> name_pattern name)"
proof
  assume "FindStringSubmatch command input \<noteq> []"
  then have t: "take (length command + 1) input = command @ '' ''"
    and n: "name_pattern (drop (length command + 1) input)"
    by (auto simp: FindStringSubmatch_def Let_def split: if_splits)
  have "input = take (length command + 1) input @ drop (length command + 1) input"
    by simp
  with t have "input = command @ '' '' @ drop (length command + 1) input"
    by simp
  with n show "\<exists>name. input = command @ '' '' @ name \<and> name_pattern name"
    by blast
next
  assume "\<exists>name. input = command @ '' '' @ name \<and> name_pattern name"
  then show "FindStringSubmatch command input \<noteq> []"
    by (auto simp: FindStringSubmatch_def Let_def)
qed

lemma RE_OP_nonempty:
  "RE_OP_FindStringSubmatch input \<noteq> [] \<longleftrightarrow> (\<exists>name. input = ''!op '' @ name \<and> name_pattern name)"
  by (simp add: RE_OP_FindStringSubmatch_def FindStringSubmatch_nonempty)

lemma RE_DEOP_nonempty:
  "RE_DEOP_FindStringSubmatch input \<noteq> [] \<longleftrightarrow>
   (\<exists>name. input = ''!deop '' @ name \<and> name_pattern name)"
  by (simp add: RE_DEOP_FindStringSubmatch_def FindStringSubmatch_nonempty)

lemma OnMessage_reload:
  assumes "IsAdmin self (routing_uid ToLower (Listener req) (Username req))"
    and "prefix ''!reload'' (trimmed_input req)"
  shows "OnMessage ToLower GetReply self req =
    (self,
     [InitBrain,
      LogTransaction (routing_uid ToLower (Listener req) (Username req)) (trimmed_input req)
        (BotUsername req) ''Brain reloaded!'',
      Send_res \<lparr>answer_Username = Username req, answer_Message = ''Brain reloaded!''\<rparr>])"
  using assms by (simp add: OnMessage_def Let_def Index_eq_0)

lemma OnMessage_op:
  assumes "IsAdmin self (routing_uid ToLower (Listener req) (Username req))"
    and "trimmed_input req = ''!op '' @ name" and "name_pattern name"
  shows "OnMessage ToLower GetReply self req =
    (self\<lparr>Admins := Admins self @ [name]\<rparr>,
     [SaveAdminsConfig (Admins self @ [name]),
      LogTransaction (routing_uid ToLower (Listener req) (Username req)) (trimmed_input req)
        (BotUsername req) (name @ '' added to the admins list.''),
      Send_res \<lparr>answer_Username = Username req,
        answer_Message = name @ '' added to the admins list.''\<rparr>])"
proof -
  from assms(2) have p: "\<not> prefix ''!reload'' (trimmed_input req)"
    "prefix ''!op'' (trimmed_input req)"
    by simp_all
  from assms(2,3) have m: "RE_OP_FindStringSubmatch (trimmed_input req) = [trimmed_input req, name]"
    using RE_OP_match [of name] by simp
  from assms(1) p m show ?thesis
    by (simp add: OnMessage_def Let_def Index_eq_0)
qed

lemma OnMessage_op_syntax:
  assumes "IsAdmin self (routing_uid ToLower (Listener req) (Username req))"
    and "prefix ''!op'' (trimmed_input req)"
    and "RE_OP_FindStringSubmatch (trimmed_input req) = []"
  shows "OnMessage ToLower GetReply self req =
    (self,
     [LogTransaction (routing_uid ToLower (Listener req) (Username req)) (trimmed_input req)
        (BotUsername req) ''Syntax error.'',
      Send_res \<lparr>answer_Username = Username req, answer_Message = ''Syntax error.''\<rparr>])"
proof -
  from assms(2) have "\<not> prefix ''!reload'' (trimmed_input req)"
    by (auto simp: prefix_def)
  with assms show ?thesis
    by (simp add: OnMessage_def Let_def Index_eq_0)
qed

lemma OnMessage_deop:
  assumes "IsAdmin self (routing_uid ToLower (Listener req) (Username req))"
    and "trimmed_input req = ''!deop '' @ name" and "name_pattern name"
  shows "OnMessage ToLower GetReply self req =
    (self\<lparr>Admins := filter (\<lambda>n. n \<noteq> name) (Admins self)\<rparr>,
     [SaveAdminsConfig (filter (\<lambda>n. n \<noteq> name) (Admins self)),
      LogTransaction (routing_uid ToLower (Listener req) (Username req)) (trimmed_input req)
        (BotUsername req) (name @ '' removed from the admins list.''),
      Send_res \<lparr>answer_Username = Username req,
        answer_Message = name @ '' removed from the admins list.''\<rparr>])"
proof -
  from assms(2) have p: "\<not> prefix ''!reload'' (trimmed_input req)"
    "\<not> prefix ''!op'' (trimmed_input req)" "prefix ''!deop'' (trimmed_input req)"
    by simp_all
  from assms(2,3)
  have m: "RE_DEOP_FindStringSubmatch (trimmed_input req) = [trimmed_input req, name]"
    using RE_DEOP_match [of name] by simp
  from assms(1) p m show ?thesis
    by (simp add: OnMessage_def Let_def Index_eq_0 deop_loop_filter)
qed

lemma OnMessage_deop_syntax:
  assumes "IsAdmin self (routing_uid ToLower (Listener req) (Username req))"
    and "prefix ''!deop'' (trimmed_input req)"
    and "RE_DEOP_FindStringSubmatch (trimmed_input req) = []"
  shows "OnMessage ToLower GetReply self req =
    (self,
     [LogTransaction (routing_uid ToLower (Listener req) (Username req)) (trimmed_input req)
        (BotUsername req) ''Syntax error.'',
      Send_res \<lparr>answer_Username = Username req, answer_Message = ''Syntax error.''\<rparr>])"
proof -
  from assms(2) have "\<not> prefix ''!reload'' (trimmed_input req)"
    and "\<not> prefix ''!op'' (trimmed_input req)"
    by (auto simp: prefix_def)
  with assms show ?thesis
    by (simp add: OnMessage_def Let_def Index_eq_0)
qed

lemma OnMessage_halt:
  assumes "IsAdmin self (routing_uid ToLower (Listener req) (Username req))"
    and "prefix ''!halt'' (trimmed_input req)"
  shows "OnMessage ToLower GetReply self req =
    (self,
     [LogTransaction (routing_uid ToLower (Listener req) (Username req)) (trimmed_input req)
        (BotUsername req) ''Shutting down...'',
      Send_res \<lparr>answer_Username = Username req, answer_Message = ''Shutting down...''\<rparr>]
     @ Shutdown self)"
proof -
  from assms(2) have "\<not> prefix ''!reload'' (trimmed_input req)"
    and "\<not> prefix ''!op'' (trimmed_input req)"
    and "\<not> prefix ''!deop'' (trimmed_input req)"
    by (auto simp: prefix_def)
  with assms show ?thesis
    by (simp add: OnMessage_def Let_def Index_eq_0)
qed

lemma OnMessage_no_command:
  assumes "\<not> prefix ''!reload'' (trimmed_input req)"
    and "\<not> prefix ''!op'' (trimmed_input req)"
    and "\<not> prefix ''!deop'' (trimmed_input req)"
    and "\<not> prefix ''!halt'' (trimmed_input req)"
  shows "OnMessage ToLower GetReply self req =
    (self,
     [Call_GetReply (BotUsername req) (routing_uid ToLower (Listener req) (Username req))
        (Message req) (GroupChat req),
      Send_res \<lparr>answer_Username = Username req,
        answer_Message = GetReply (BotUsername req)
          (routing_uid ToLower (Listener req) (Username req)) (Message req) (GroupChat req)\<rparr>])"
  using assms by (simp add: OnMessage_def Let_def Index_eq_0)

lemma Shutdown_no_save: "SaveAdminsConfig a \<notin> set (Shutdown self)"
  by (auto simp: Shutdown_def)

lemma sent_replies_Shutdown: "sent_replies (Shutdown self) = []"
proof -
  have "sent_replies (map (\<lambda>(id, bot). Send_Stop id) ls) = []" for ls :: "(string \<times> ListenerConfig) list"
    by (induction ls) auto
  then show ?thesis by (simp add: Shutdown_def)
qed

subsection \<open>Forwarding to the reply engine\<close>

text \<open>
  C7: for every sender whose routing identity is not in the admin registry, any message,
  also one that begins with \<^verbatim>\<open>!\<close>, is passed to the reply engine with the raw,
  untrimmed message text (arguments \<^verbatim>\<open>botUsername\<close>, \<^verbatim>\<open>uid\<close>, \<^verbatim>\<open>rawMessage\<close>,
  \<^verbatim>\<open>isGroupChat\<close>), and the text it returns is the reply that is sent; no command is
  intercepted: the state is unchanged and nothing else happens.
\<close>

theorem non_admin_forwarded_verbatim:
  assumes "\<not> IsAdmin self (routing_uid ToLower (Listener req) (Username req))"
  shows "OnMessage ToLower GetReply self req =
    (self,
     [Call_GetReply (BotUsername req) (routing_uid ToLower (Listener req) (Username req))
        (Message req) (GroupChat req),
      Send_res \<lparr>answer_Username = Username req,
        answer_Message = GetReply (BotUsername req)
          (routing_uid ToLower (Listener req) (Username req)) (Message req) (GroupChat req)\<rparr>])"
  using assms by (rule OnMessage_not_admin)

theorem non_admin_forwarded_verbatim_witness:
  "\<not> IsAdmin running_bot (routing_uid ToLower_ascii ''console'' ''Eve'') \<and>
   OnMessage ToLower_ascii (\<lambda>bot uid message group. ''Hello, '' @ uid) running_bot
     (console_request ''Eve'' '' !halt '') =
   (running_bot,
    [Call_GetReply ''Scarecrow'' ''console-eve'' '' !halt '' False,
     Send_res \<lparr>answer_Username = ''Eve'', answer_Message = ''Hello, console-eve''\<rparr>])"
  using non_admin_forwarded_verbatim [of running_bot ToLower_ascii
      "console_request ''Eve'' '' !halt ''" "\<lambda>bot uid message group. ''Hello, '' @ uid"]
  by (simp add: IsAdmin_def running_bot_def console_request_def routing_uid_def ToLower_ascii_def)

subsection \<open>The reply\<close>

text \<open>
  C4, as the code has it: every request is answered by exactly one reply. When a command
  was intercepted (the sender is an admin and the trimmed input starts with one of the four
  command words) the reply is one of the command replies, and it is not empty. Otherwise
  the reply is exactly the text that \<^verbatim>\<open>GetReply\<close> returned for the bot's name, the routing
  identity, the raw message and the group-chat flag. So the reply is empty exactly when no
  command was intercepted and the reply engine returned the empty text.
\<close>

theorem reply_empty_iff:
  "\<exists>reply. sent_replies (snd (OnMessage ToLower GetReply self req)) = [reply] \<and>
     (IsAdmin self (routing_uid ToLower (Listener req) (Username req)) \<and>
      (prefix ''!reload'' (trimmed_input req) \<or> prefix ''!op'' (trimmed_input req) \<or>
       prefix ''!deop'' (trimmed_input req) \<or> prefix ''!halt'' (trimmed_input req)) \<longrightarrow>
        reply \<noteq> '''' \<and>
        (reply = ''Brain reloaded!'' \<or> reply = ''Syntax error.'' \<or> reply = ''Shutting down...'' \<or>
         (\<exists>name. name_pattern name \<and>
            (reply = name @ '' added to the admins list.'' \<or>
             reply = name @ '' removed from the admins list.'')))) \<and>
     (\<not> (IsAdmin self (routing_uid ToLower (Listener req) (Username req)) \<and>
         (prefix ''!reload'' (trimmed_input req) \<or> prefix ''!op'' (trimmed_input req) \<or>
          prefix ''!deop'' (trimmed_input req) \<or> prefix ''!halt'' (trimmed_input req))) \<longrightarrow>
        reply = GetReply (BotUsername req) (routing_uid ToLower (Listener req) (Username req))
          (Message req) (GroupChat req)) \<and>
     (reply = '''' \<longleftrightarrow>
        \<not> (IsAdmin self (routing_uid ToLower (Listener req) (Username req)) \<and>
           (prefix ''!reload'' (trimmed_input req) \<or> prefix ''!op'' (trimmed_input req) \<or>
            prefix ''!deop'' (trimmed_input req) \<or> prefix ''!halt'' (trimmed_input req))) \<and>
        GetReply (BotUsername req) (routing_uid ToLower (Listener req) (Username req))
          (Message req) (GroupChat req) = '''')"
proof (cases "IsAdmin self (routing_uid ToLower (Listener req) (Username req))")
  case False
  then show ?thesis
    by (simp add: OnMessage_not_admin)
next
  case True
  consider (reload) "prefix ''!reload'' (trimmed_input req)"
    | (op) "prefix ''!op'' (trimmed_input req)" "RE_OP_FindStringSubmatch (trimmed_input req) = []"
    | (op_ok) "RE_OP_FindStringSubmatch (trimmed_input req) \<noteq> []"
    | (deop) "prefix ''!deop'' (trimmed_input req)"
        "RE_DEOP_FindStringSubmatch (trimmed_input req) = []"
    | (deop_ok) "RE_DEOP_FindStringSubmatch (trimmed_input req) \<noteq> []"
    | (halt) "prefix ''!halt'' (trimmed_input req)"
    | (none) "\<not> prefix ''!reload'' (trimmed_input req)" "\<not> prefix ''!op'' (trimmed_input req)"
        "\<not> prefix ''!deop'' (trimmed_input req)" "\<not> prefix ''!halt'' (trimmed_input req)"
    by blast
  then show ?thesis
  proof cases
    case reload
    with True show ?thesis by (simp add: OnMessage_reload)
  next
    case op
    with True show ?thesis by (simp add: OnMessage_op_syntax)
  next
    case op_ok
    then obtain name where n: "trimmed_input req = ''!op '' @ name" "name_pattern name"
      by (auto simp: RE_OP_nonempty)
    from n(1) have p: "prefix ''!op'' (trimmed_input req)" by simp
    have r: "sent_replies (snd (OnMessage ToLower GetReply self req)) =
        [name @ '' added to the admins list.'']"
      by (simp add: OnMessage_op [OF True n])
    have e: "\<exists>n. name_pattern n \<and>
        (name @ '' added to the admins list.'' = n @ '' added to the admins list.'' \<or>
         name @ '' added to the admins list.'' = n @ '' removed from the admins list.'')"
      using n(2) by blast
    from True p r e show ?thesis by simp
  next
    case deop
    with True show ?thesis by (simp add: OnMessage_deop_syntax)
  next
    case deop_ok
    then obtain name where n: "trimmed_input req = ''!deop '' @ name" "name_pattern name"
      by (auto simp: RE_DEOP_nonempty)
    from n(1) have p: "prefix ''!deop'' (trimmed_input req)" by simp
    have r: "sent_replies (snd (OnMessage ToLower GetReply self req)) =
        [name @ '' removed from the admins list.'']"
      by (simp add: OnMessage_deop [OF True n])
    have e: "\<exists>n. name_pattern n \<and>
        (name @ '' removed from the admins list.'' = n @ '' added to the admins list.'' \<or>
         name @ '' removed from the admins list.'' = n @ '' removed from the admins list.'')"
      using n(2) by blast
    from True p r e show ?thesis by simp
  next
    case halt
    with True show ?thesis by (simp add: OnMessage_halt sent_replies_Shutdown)
  next
    case none
    then show ?thesis by (simp add: OnMessage_no_command)
  qed
qed

theorem reply_empty_iff_witness:
  "(\<exists>reply. sent_replies (snd (OnMessage ToLower_ascii (\<lambda>bot uid message group. '''') running_bot
       (console_request ''Bob'' ''!reload''))) = [reply] \<and> reply \<noteq> '''') \<and>
   (\<exists>reply. sent_replies (snd (OnMessage ToLower_ascii (\<lambda>bot uid message group. ''Hello, '' @ uid)
       running_bot (console_request ''Eve'' ''!reload''))) = [reply] \<and>
       reply = ''Hello, console-eve'')"
proof -
  have a: "IsAdmin running_bot (routing_uid ToLower_ascii
      (Listener (console_request ''Bob'' ''!reload''))
      (Username (console_request ''Bob'' ''!reload'')))"
    by (simp add: console_request_def routing_uid_def ToLower_ascii_def IsAdmin_def running_bot_def)
  have p: "prefix ''!reload'' (trimmed_input (console_request ''Bob'' ''!reload''))"
    by (simp add: trimmed_input_def Trim_def console_request_def)
  have w1: "\<exists>reply. sent_replies (snd (OnMessage ToLower_ascii (\<lambda>bot uid message group. '''')
       running_bot (console_request ''Bob'' ''!reload''))) = [reply] \<and> reply \<noteq> ''''"
    using reply_empty_iff [of ToLower_ascii "\<lambda>bot uid message group. ''''" running_bot
        "console_request ''Bob'' ''!reload''"] a p
    by blast
  have u: "routing_uid ToLower_ascii (Listener (console_request ''Eve'' ''!reload''))
      (Username (console_request ''Eve'' ''!reload'')) = ''console-eve''"
    by (simp add: console_request_def routing_uid_def ToLower_ascii_def)
  have n: "\<not> IsAdmin running_bot (routing_uid ToLower_ascii
      (Listener (console_request ''Eve'' ''!reload''))
      (Username (console_request ''Eve'' ''!reload'')))"
    unfolding u by (simp add: IsAdmin_def running_bot_def)
  have w2: "\<exists>reply. sent_replies (snd (OnMessage ToLower_ascii
       (\<lambda>bot uid message group. ''Hello, '' @ uid) running_bot
       (console_request ''Eve'' ''!reload''))) = [reply] \<and> reply = ''Hello, console-eve''"
    using reply_empty_iff [of ToLower_ascii "\<lambda>bot uid message group. ''Hello, '' @ uid" running_bot
        "console_request ''Eve'' ''!reload''"] n
    unfolding u by auto
  from w1 w2 show ?thesis ..
qed

text \<open>
  C4 as stated (the reply is non-empty for every request) fails when the reply engine
  returns the empty text: the empty text is sent as the reply.
\<close>

theorem reply_empty_counterexample:
  "sent_replies (snd (OnMessage ToLower_ascii (\<lambda>bot uid message group. '''') running_bot
     (console_request ''Eve'' ''hello''))) = ['''']"
  by (simp add: OnMessage_def Let_def IsAdmin_def running_bot_def console_request_def
      routing_uid_def ToLower_ascii_def)

subsection \<open>The admin commands\<close>

text \<open>
  C3: when the sender is an admin and the trimmed input starts with \<^verbatim>\<open>!halt\<close>, the
  handler logs the transaction, sends the reply \<^verbatim>\<open>Shutting down...\<close> on the answer
  channel, and only after that send does the shutdown broadcast run, which sends
  \<^verbatim>\<open>Stop\<close> to the input channel of every active listener.
\<close>

theorem halt_reply_precedes_shutdown:
  assumes "IsAdmin self (routing_uid ToLower (Listener req) (Username req))"
    and "prefix ''!halt'' (trimmed_input req)"
  shows "OnMessage ToLower GetReply self req =
    (self,
     [LogTransaction (routing_uid ToLower (Listener req) (Username req)) (trimmed_input req)
        (BotUsername req) ''Shutting down...'',
      Send_res \<lparr>answer_Username = Username req, answer_Message = ''Shutting down...''\<rparr>]
     @ map (\<lambda>(id, bot). Send_Stop id) (Listeners self))"
  using OnMessage_halt [OF assms] by (simp add: Shutdown_def)

theorem halt_reply_precedes_shutdown_witness:
  "IsAdmin running_bot (routing_uid ToLower_ascii ''console'' ''Bob'') \<and>
   prefix ''!halt'' (trimmed_input (console_request ''Bob'' '' !halt now'')) \<and>
   OnMessage ToLower_ascii (\<lambda>bot uid message group. ''Hello'') running_bot
     (console_request ''Bob'' '' !halt now'') =
   (running_bot,
    [LogTransaction ''console-bob'' ''!halt now'' ''Scarecrow'' ''Shutting down...'',
     Send_res \<lparr>answer_Username = ''Bob'', answer_Message = ''Shutting down...''\<rparr>,
     Send_Stop ''console'', Send_Stop ''slack''])"
  using halt_reply_precedes_shutdown [of running_bot ToLower_ascii
      "console_request ''Bob'' '' !halt now''" "\<lambda>bot uid message group. ''Hello''"]
  by (simp add: IsAdmin_def running_bot_def console_request_def routing_uid_def ToLower_ascii_def
      trimmed_input_def Trim_def)

text \<open>
  C5: for every admin list that does not contain the name (\<^verbatim>\<open>alice\<close>, or any other
  name of the pattern), an admin's \<^verbatim>\<open>!op name\<close> followed by an admin's \<^verbatim>\<open>!deop name\<close>
  first appends the name and then leaves the registry, and the whole state, as it was
  at the start.
\<close>

theorem op_then_deop_roundtrip:
  assumes "name_pattern name" and "name \<notin> set (Admins self)"
    and "trimmed_input req1 = ''!op '' @ name"
    and "trimmed_input req2 = ''!deop '' @ name"
    and "IsAdmin self (routing_uid ToLower (Listener req1) (Username req1))"
    and "IsAdmin (fst (OnMessage ToLower GetReply self req1))
           (routing_uid ToLower (Listener req2) (Username req2))"
  shows "Admins (fst (OnMessage ToLower GetReply self req1)) = Admins self @ [name] \<and>
         fst (OnMessage ToLower GetReply (fst (OnMessage ToLower GetReply self req1)) req2) = self"
proof -
  let ?s1 = "fst (OnMessage ToLower GetReply self req1)"
  have s1: "?s1 = self\<lparr>Admins := Admins self @ [name]\<rparr>"
    using OnMessage_op [OF assms(5) assms(3) assms(1)] by simp
  have "fst (OnMessage ToLower GetReply ?s1 req2) =
        ?s1\<lparr>Admins := filter (\<lambda>n. n \<noteq> name) (Admins ?s1)\<rparr>"
    using OnMessage_deop [OF assms(6) assms(4) assms(1)] by simp
  also have "\<dots> = self"
  proof -
    have "filter (\<lambda>n. n \<noteq> name) (Admins self) = Admins self"
      using assms(2) by (auto simp: filter_id_conv)
    then show ?thesis by (simp add: s1)
  qed
  finally show ?thesis using s1 by simp
qed

theorem op_then_deop_roundtrip_witness:
  "name_pattern ''alice'' \<and> ''alice'' \<notin> set (Admins running_bot) \<and>
   Admins (fst (OnMessage ToLower_ascii (\<lambda>bot uid message group. ''Hello'') running_bot
     (console_request ''Bob'' ''!op alice''))) = [''console-bob'', ''alice''] \<and>
   fst (OnMessage ToLower_ascii (\<lambda>bot uid message group. ''Hello'')
     (fst (OnMessage ToLower_ascii (\<lambda>bot uid message group. ''Hello'') running_bot
        (console_request ''Bob'' ''!op alice'')))
     (console_request ''Bob'' ''!deop alice'')) = running_bot"
proof -
  have u: "routing_uid ToLower_ascii ''console'' ''Bob'' = ''console-bob''"
    by (simp add: routing_uid_def ToLower_ascii_def)
  have n: "name_pattern ''alice''"
    by (simp add: name_pattern_def name_class_def)
  have f: "''alice'' \<notin> set (Admins running_bot)"
    by (simp add: running_bot_def)
  have t1: "trimmed_input (console_request ''Bob'' ''!op alice'') = ''!op '' @ ''alice''"
    by (simp add: trimmed_input_def Trim_def console_request_def)
  have t2: "trimmed_input (console_request ''Bob'' ''!deop alice'') = ''!deop '' @ ''alice''"
    by (simp add: trimmed_input_def Trim_def console_request_def)
  have a1: "IsAdmin running_bot (routing_uid ToLower_ascii
      (Listener (console_request ''Bob'' ''!op alice''))
      (Username (console_request ''Bob'' ''!op alice'')))"
    by (simp add: console_request_def u IsAdmin_def running_bot_def)
  have a2: "IsAdmin (fst (OnMessage ToLower_ascii (\<lambda>bot uid message group. ''Hello'') running_bot
        (console_request ''Bob'' ''!op alice'')))
      (routing_uid ToLower_ascii (Listener (console_request ''Bob'' ''!deop alice''))
        (Username (console_request ''Bob'' ''!deop alice'')))"
    using OnMessage_op [OF a1 t1 n, of "\<lambda>bot uid message group. ''Hello''"]
    by (simp add: console_request_def u IsAdmin_def running_bot_def)
  show ?thesis
    using op_then_deop_roundtrip [OF n f t1 t2 a1 a2] n f
    by (simp add: running_bot_def)
qed

text \<open>
  C6: for every admin sender, a \<^verbatim>\<open>!op\<close> or \<^verbatim>\<open>!deop\<close> command whose argument does not
  match \<^verbatim>\<open>[A-Za-z0-9.@_-]+\<close> is answered with \<^verbatim>\<open>Syntax error.\<close> and changes nothing:
  the state is the same, and the only effects are the transaction log entry and the
  reply, so the registry is neither mutated nor saved.
\<close>

theorem malformed_op_deop_syntax_error:
  assumes "IsAdmin self (routing_uid ToLower (Listener req) (Username req))"
    and "trimmed_input req = ''!op '' @ arg \<or> trimmed_input req = ''!deop '' @ arg"
    and "\<not> name_pattern arg"
  shows "OnMessage ToLower GetReply self req =
    (self,
     [LogTransaction (routing_uid ToLower (Listener req) (Username req)) (trimmed_input req)
        (BotUsername req) ''Syntax error.'',
      Send_res \<lparr>answer_Username = Username req, answer_Message = ''Syntax error.''\<rparr>])"
  using assms(2)
proof
  assume t: "trimmed_input req = ''!op '' @ arg"
  then have p: "prefix ''!op'' (trimmed_input req)"
    by simp
  have "RE_OP_FindStringSubmatch (trimmed_input req) = []"
    using t assms(3) RE_OP_nonempty [of "trimmed_input req"] by auto
  with assms(1) p show ?thesis
    by (rule OnMessage_op_syntax)
next
  assume t: "trimmed_input req = ''!deop '' @ arg"
  then have p: "prefix ''!deop'' (trimmed_input req)"
    by simp
  have "RE_DEOP_FindStringSubmatch (trimmed_input req) = []"
    using t assms(3) RE_DEOP_nonempty [of "trimmed_input req"] by auto
  with assms(1) p show ?thesis
    by (rule OnMessage_deop_syntax)
qed

theorem malformed_op_deop_syntax_error_witness:
  "IsAdmin running_bot (routing_uid ToLower_ascii ''console'' ''Bob'') \<and>
   trimmed_input (console_request ''Bob'' ''!op bad name!'') = ''!op '' @ ''bad name!'' \<and>
   \<not> name_pattern ''bad name!'' \<and>
   OnMessage ToLower_ascii (\<lambda>bot uid message group. ''Hello'') running_bot
     (console_request ''Bob'' ''!op bad name!'') =
   (running_bot,
    [LogTransaction ''console-bob'' ''!op bad name!'' ''Scarecrow'' ''Syntax error.'',
     Send_res \<lparr>answer_Username = ''Bob'', answer_Message = ''Syntax error.''\<rparr>])"
proof -
  have u: "routing_uid ToLower_ascii ''console'' ''Bob'' = ''console-bob''"
    by (simp add: routing_uid_def ToLower_ascii_def)
  have a: "IsAdmin running_bot (routing_uid ToLower_ascii
      (Listener (console_request ''Bob'' ''!op bad name!''))
      (Username (console_request ''Bob'' ''!op bad name!'')))"
    by (simp add: console_request_def u IsAdmin_def running_bot_def)
  have t: "trimmed_input (console_request ''Bob'' ''!op bad name!'') = ''!op '' @ ''bad name!''"
    by (simp add: trimmed_input_def Trim_def console_request_def)
  have n: "\<not> name_pattern ''bad name!''"
    by (simp add: name_pattern_def name_class_def)
  show ?thesis
    using malformed_op_deop_syntax_error [OF a disjI1 [OF t] n,
        of "\<lambda>bot uid message group. ''Hello''"] a t n
    by (simp add: console_request_def u)
qed

text \<open>
  C9: the privilege check is membership of the routing identity in the registry, by
  equality of strings. A routing identity contains a hyphen, so a name without a hyphen
  that an admin adds with \<^verbatim>\<open>!op\<close> is appended to the registry, is different from every
  routing identity, and leaves the privilege check of every routing identity as it was.
\<close>

theorem hyphenless_op_entry_grants_nothing:
  assumes "IsAdmin self (routing_uid ToLower (Listener req) (Username req))"
    and "trimmed_input req = ''!op '' @ name" and "name_pattern name"
    and "CHR ''-'' \<notin> set name"
  shows "(IsAdmin s u \<longleftrightarrow> u \<in> set (Admins s)) \<and>
         Admins (fst (OnMessage ToLower GetReply self req)) = Admins self @ [name] \<and>
         name \<noteq> routing_uid ToLower listener username \<and>
         (IsAdmin (fst (OnMessage ToLower GetReply self req)) (routing_uid ToLower listener username)
            \<longleftrightarrow> IsAdmin self (routing_uid ToLower listener username))"
proof -
  have a: "Admins (fst (OnMessage ToLower GetReply self req)) = Admins self @ [name]"
    using OnMessage_op [OF assms(1,2,3)] by simp
  have "CHR ''-'' \<in> set (routing_uid ToLower listener username)"
    by (simp add: routing_uid_def)
  with assms(4) have n: "name \<noteq> routing_uid ToLower listener username"
    by auto
  from a n show ?thesis
    by (auto simp: IsAdmin_mem)
qed

theorem hyphenless_op_entry_grants_nothing_witness:
  "IsAdmin running_bot (routing_uid ToLower_ascii ''console'' ''Bob'') \<and>
   trimmed_input (console_request ''Bob'' ''!op carol'') = ''!op '' @ ''carol'' \<and>
   name_pattern ''carol'' \<and> CHR ''-'' \<notin> set ''carol'' \<and>
   Admins (fst (OnMessage ToLower_ascii (\<lambda>bot uid message group. ''Hello'') running_bot
     (console_request ''Bob'' ''!op carol''))) = [''console-bob'', ''carol''] \<and>
   \<not> IsAdmin (fst (OnMessage ToLower_ascii (\<lambda>bot uid message group. ''Hello'') running_bot
     (console_request ''Bob'' ''!op carol''))) (routing_uid ToLower_ascii ''console'' ''Carol'')"
proof -
  have u: "routing_uid ToLower_ascii ''console'' ''Bob'' = ''console-bob''"
    by (simp add: routing_uid_def ToLower_ascii_def)
  have a: "IsAdmin running_bot (routing_uid ToLower_ascii
      (Listener (console_request ''Bob'' ''!op carol''))
      (Username (console_request ''Bob'' ''!op carol'')))"
    by (simp add: console_request_def u IsAdmin_def running_bot_def)
  have t: "trimmed_input (console_request ''Bob'' ''!op carol'') = ''!op '' @ ''carol''"
    by (simp add: trimmed_input_def Trim_def console_request_def)
  have n: "name_pattern ''carol''"
    by (simp add: name_pattern_def name_class_def)
  have h: "CHR ''-'' \<notin> set ''carol''"
    by simp
  have c: "\<not> IsAdmin running_bot (routing_uid ToLower_ascii ''console'' ''Carol'')"
    by (simp add: routing_uid_def ToLower_ascii_def IsAdmin_def running_bot_def)
  show ?thesis
    using hyphenless_op_entry_grants_nothing [OF a t n h,
        where s = running_bot and u = "''console-bob''"
          and GetReply = "\<lambda>bot uid message group. ''Hello''"
          and listener = "''console''" and username = "''Carol''"] a t n c
    by (simp add: console_request_def u running_bot_def)
qed

text \<open>
  C10: unless the sender is an admin and the trimmed input is \<^verbatim>\<open>!op\<close> or \<^verbatim>\<open>!deop\<close>
  followed by one space and a name of the pattern (the two successful branches), handling
  a request leaves the state, and with it the admin registry, as it was and does not save
  the registry. That covers \<^verbatim>\<open>!reload\<close>, \<^verbatim>\<open>!halt\<close>, the syntax errors and forwarding.
\<close>

theorem admins_changed_only_by_op_deop:
  assumes "\<not> (IsAdmin self (routing_uid ToLower (Listener req) (Username req)) \<and>
      (\<exists>name. name_pattern name \<and>
         (trimmed_input req = ''!op '' @ name \<or> trimmed_input req = ''!deop '' @ name)))"
  shows "fst (OnMessage ToLower GetReply self req) = self \<and>
         SaveAdminsConfig admins \<notin> set (snd (OnMessage ToLower GetReply self req))"
proof (cases "IsAdmin self (routing_uid ToLower (Listener req) (Username req))")
  case False
  then show ?thesis
    by (simp add: OnMessage_not_admin)
next
  case True
  with assms have op: "RE_OP_FindStringSubmatch (trimmed_input req) = []"
    and deop: "RE_DEOP_FindStringSubmatch (trimmed_input req) = []"
    using RE_OP_nonempty [of "trimmed_input req"] RE_DEOP_nonempty [of "trimmed_input req"]
    by auto
  consider (reload) "prefix ''!reload'' (trimmed_input req)"
    | (op) "prefix ''!op'' (trimmed_input req)"
    | (deop) "prefix ''!deop'' (trimmed_input req)"
    | (halt) "prefix ''!halt'' (trimmed_input req)"
    | (none) "\<not> prefix ''!reload'' (trimmed_input req)" "\<not> prefix ''!op'' (trimmed_input req)"
        "\<not> prefix ''!deop'' (trimmed_input req)" "\<not> prefix ''!halt'' (trimmed_input req)"
    by blast
  then show ?thesis
  proof cases
    case reload
    with True show ?thesis by (simp add: OnMessage_reload)
  next
    case op
    with True show ?thesis using \<open>RE_OP_FindStringSubmatch (trimmed_input req) = []\<close>
      by (simp add: OnMessage_op_syntax)
  next
    case deop
    with True show ?thesis using \<open>RE_DEOP_FindStringSubmatch (trimmed_input req) = []\<close>
      by (simp add: OnMessage_deop_syntax)
  next
    case halt
    with True show ?thesis by (simp add: OnMessage_halt Shutdown_no_save)
  next
    case none
    then show ?thesis by (simp add: OnMessage_no_command)
  qed
qed

theorem admins_changed_only_by_op_deop_witness:
  "\<not> (IsAdmin running_bot (routing_uid ToLower_ascii ''console'' ''Bob'') \<and>
      (\<exists>name. name_pattern name \<and>
         (trimmed_input (console_request ''Bob'' ''!reload now'') = ''!op '' @ name \<or>
          trimmed_input (console_request ''Bob'' ''!reload now'') = ''!deop '' @ name))) \<and>
   fst (OnMessage ToLower_ascii (\<lambda>bot uid message group. ''Hello'') running_bot
     (console_request ''Bob'' ''!reload now'')) = running_bot"
proof -
  have t: "trimmed_input (console_request ''Bob'' ''!reload now'') = ''!reload now''"
    by (simp add: trimmed_input_def Trim_def console_request_def)
  have h: "\<not> (IsAdmin running_bot (routing_uid ToLower_ascii
        (Listener (console_request ''Bob'' ''!reload now''))
        (Username (console_request ''Bob'' ''!reload now''))) \<and>
      (\<exists>name. name_pattern name \<and>
         (trimmed_input (console_request ''Bob'' ''!reload now'') = ''!op '' @ name \<or>
          trimmed_input (console_request ''Bob'' ''!reload now'') = ''!deop '' @ name)))"
    by (simp add: t)
  show ?thesis
    using admins_changed_only_by_op_deop [OF h, of "\<lambda>bot uid message group. ''Hello''"] h
    by (simp add: console_request_def)
qed

subsection \<open>Trimming\<close>

lemma takeWhile_eq_replicate:
  "takeWhile (\<lambda>c. c = x) xs = replicate (length (takeWhile (\<lambda>c. c = x) xs)) x"
  by (induction xs) auto

lemma rev_dropWhile_split:
  "xs = rev (dropWhile P (rev xs)) @ rev (takeWhile P (rev xs))"
proof -
  have "rev (rev xs) = rev (takeWhile P (rev xs) @ dropWhile P (rev xs))"
    by (simp only: takeWhile_dropWhile_id)
  then show ?thesis
    by (simp only: rev_rev_ident rev_append)
qed

lemma Trim_space: "Trim s '' '' = rev (dropWhile (\<lambda>c. c = CHR '' '') (rev (dropWhile (\<lambda>c. c = CHR '' '') s)))"
  by (simp add: Trim_def)

lemma Trim_space_decomposition:
  "s = replicate (length (takeWhile (\<lambda>c. c = CHR '' '') s)) CHR '' '' @ Trim s '' '' @
       replicate (length (takeWhile (\<lambda>c. c = CHR '' '') (rev (dropWhile (\<lambda>c. c = CHR '' '') s)))) CHR '' ''"
proof -
  let ?P = "\<lambda>c. c = CHR '' ''"
  let ?d = "dropWhile ?P s"
  have d: "?d = Trim s '' '' @ rev (takeWhile ?P (rev ?d))"
    unfolding Trim_space by (rule rev_dropWhile_split)
  have r: "rev (takeWhile ?P (rev ?d)) = replicate (length (takeWhile ?P (rev ?d))) CHR '' ''"
  proof -
    have "rev (takeWhile ?P (rev ?d)) = rev (replicate (length (takeWhile ?P (rev ?d))) CHR '' '')"
      using takeWhile_eq_replicate [of "CHR '' ''" "rev ?d"] by (rule arg_cong)
    then show ?thesis by (simp only: rev_replicate)
  qed
  have "s = takeWhile ?P s @ ?d"
    by (simp only: takeWhile_dropWhile_id)
  also have "\<dots> = takeWhile ?P s @ Trim s '' '' @ rev (takeWhile ?P (rev ?d))"
    using d by (rule arg_cong)
  also have "\<dots> = replicate (length (takeWhile ?P s)) CHR '' '' @ Trim s '' '' @
      replicate (length (takeWhile ?P (rev ?d))) CHR '' ''"
    using takeWhile_eq_replicate [of "CHR '' ''" s] r by simp
  finally show ?thesis .
qed


lemma Trim_space_ends:
  assumes "Trim s '' '' \<noteq> []"
  shows "hd (Trim s '' '') \<noteq> CHR '' '' \<and> last (Trim s '' '') \<noteq> CHR '' ''"
proof -
  let ?P = "\<lambda>c. c = CHR '' ''"
  let ?d = "dropWhile ?P s"
  from assms have ne: "dropWhile ?P (rev ?d) \<noteq> []"
    by (simp add: Trim_space)
  then have "\<not> ?P (hd (dropWhile ?P (rev ?d)))"
    by (rule hd_dropWhile)
  with ne have l: "last (Trim s '' '') \<noteq> CHR '' ''"
    by (simp add: Trim_space last_rev)
  have "?d \<noteq> []"
  proof
    assume "?d = []"
    then have "dropWhile ?P (rev ?d) = []"
      by (simp only: rev.simps dropWhile.simps)
    with ne show False ..
  qed
  then have hd_d: "\<not> ?P (hd ?d)"
    by (rule hd_dropWhile)
  have "?d = Trim s '' '' @ rev (takeWhile ?P (rev ?d))"
    unfolding Trim_space by (rule rev_dropWhile_split)
  then have "hd ?d = hd (Trim s '' '' @ rev (takeWhile ?P (rev ?d)))"
    by (rule arg_cong)
  also have "\<dots> = hd (Trim s '' '')"
    using assms by (rule hd_append2)
  finally have "hd ?d = hd (Trim s '' '')" .
  with hd_d l show ?thesis
    by simp
qed

text \<open>
  C8, as the code has it: before command matching the handler strips the surrounding
  space characters, and only those. The raw message is the trimmed input with some
  number of spaces before it and some number after it, and a non-empty trimmed input
  neither begins nor ends with a space. Tabs and newlines are kept.
\<close>

theorem trimmed_input_strips_spaces:
  "(\<exists>a b. Message req = replicate a CHR '' '' @ trimmed_input req @ replicate b CHR '' '') \<and>
   (trimmed_input req \<noteq> [] \<longrightarrow>
      hd (trimmed_input req) \<noteq> CHR '' '' \<and> last (trimmed_input req) \<noteq> CHR '' '')"
proof
  show "\<exists>a b. Message req = replicate a CHR '' '' @ trimmed_input req @ replicate b CHR '' ''"
    unfolding trimmed_input_def
    by (intro exI) (rule Trim_space_decomposition)
  show "trimmed_input req \<noteq> [] \<longrightarrow>
      hd (trimmed_input req) \<noteq> CHR '' '' \<and> last (trimmed_input req) \<noteq> CHR '' ''"
    unfolding trimmed_input_def by (rule impI, rule Trim_space_ends)
qed


theorem trimmed_input_strips_spaces_witness:
  "trimmed_input (console_request ''Bob'' ''  !op carol '') = ''!op carol'' \<and>
   (\<exists>a b. ''  !op carol '' = replicate a CHR '' '' @ ''!op carol'' @ replicate b CHR '' '')"
proof -
  have t: "trimmed_input (console_request ''Bob'' ''  !op carol '') = ''!op carol''"
    by (simp add: trimmed_input_def Trim_def console_request_def)
  have m: "Message (console_request ''Bob'' ''  !op carol '') = ''  !op carol ''"
    by (simp add: console_request_def)
  show ?thesis
    using trimmed_input_strips_spaces [of "console_request ''Bob'' ''  !op carol ''"]
    unfolding t m by (simp only: simp_thms)
qed

text \<open>
  C8 as stated (tabs and newlines are stripped too) fails for a message that begins with
  a tab: the trimmed input keeps the tab, where the specification's stripping removes it,
  and so an admin's \<^verbatim>\<open>!halt\<close> behind a tab is not taken as a command but forwarded to
  the reply engine.
\<close>

theorem trimmed_input_keeps_tab_counterexample:
  "trimmed_input (console_request ''Bob'' (CHR 0x09 # ''!halt'')) = CHR 0x09 # ''!halt'' \<and>
   spec_strip_whitespace (Message (console_request ''Bob'' (CHR 0x09 # ''!halt''))) = ''!halt'' \<and>
   trimmed_input (console_request ''Bob'' (CHR 0x09 # ''!halt''))
     \<noteq> spec_strip_whitespace (Message (console_request ''Bob'' (CHR 0x09 # ''!halt''))) \<and>
   OnMessage ToLower_ascii (\<lambda>bot uid message group. ''Hello'') running_bot
     (console_request ''Bob'' (CHR 0x09 # ''!halt'')) =
   (running_bot,
    [Call_GetReply ''Scarecrow'' ''console-bob'' (CHR 0x09 # ''!halt'') False,
     Send_res \<lparr>answer_Username = ''Bob'', answer_Message = ''Hello''\<rparr>])"
proof -
  have t: "trimmed_input (console_request ''Bob'' (CHR 0x09 # ''!halt'')) = CHR 0x09 # ''!halt''"
    by (simp add: trimmed_input_def Trim_def console_request_def)
  have s: "spec_strip_whitespace (Message (console_request ''Bob'' (CHR 0x09 # ''!halt''))) = ''!halt''"
    by (simp add: spec_strip_whitespace_def spec_whitespace_def console_request_def)
  have p: "\<not> prefix ''!reload'' (trimmed_input (console_request ''Bob'' (CHR 0x09 # ''!halt'')))"
    "\<not> prefix ''!op'' (trimmed_input (console_request ''Bob'' (CHR 0x09 # ''!halt'')))"
    "\<not> prefix ''!deop'' (trimmed_input (console_request ''Bob'' (CHR 0x09 # ''!halt'')))"
    "\<not> prefix ''!halt'' (trimmed_input (console_request ''Bob'' (CHR 0x09 # ''!halt'')))"
    by (simp_all add: t)
  have u: "routing_uid ToLower_ascii ''console'' ''Bob'' = ''console-bob''"
    by (simp add: routing_uid_def ToLower_ascii_def)
  have o: "OnMessage ToLower_ascii (\<lambda>bot uid message group. ''Hello'') running_bot
     (console_request ''Bob'' (CHR 0x09 # ''!halt'')) =
   (running_bot,
    [Call_GetReply ''Scarecrow'' ''console-bob'' (CHR 0x09 # ''!halt'') False,
     Send_res \<lparr>answer_Username = ''Bob'', answer_Message = ''Hello''\<rparr>])"
    using OnMessage_no_command [OF p, of ToLower_ascii "\<lambda>bot uid message group. ''Hello''" running_bot]
    by (simp add: console_request_def u)
  have n: "trimmed_input (console_request ''Bob'' (CHR 0x09 # ''!halt''))
     \<noteq> spec_strip_whitespace (Message (console_request ''Bob'' (CHR 0x09 # ''!halt'')))"
    unfolding t s by simp
  from t s n o show ?thesis by (simp only: simp_thms)
qed

subsection \<open>A listener has stopped\<close>

lemma dom_map_of_empty: "dom (map_of al) = {} \<longleftrightarrow> al = []"
  by (simp add: dom_map_of_conv_image_fst)

text \<open>
  C2: processing \<^verbatim>\<open>Stopped{A}\<close> removes exactly the entry of \<^verbatim>\<open>A\<close> from the mapping of
  active listeners: every other key maps to what it mapped to before, and no other field
  of the state changes. The process exits, with status 0, if and only if the mapping is
  empty afterwards. In particular, with \<^verbatim>\<open>A\<close> and another listener \<^verbatim>\<open>B\<close> both active,
  \<^verbatim>\<open>A\<close> is removed, \<^verbatim>\<open>B\<close> stays and the process goes on; with \<^verbatim>\<open>A\<close> the only active
  listener, the process exits.
\<close>

theorem OnStopped_removes_entry_exits_when_empty:
  "map_of (Listeners (fst (OnStopped self ev))) = (map_of (Listeners self))(ListenerId ev := None) \<and>
   fst (OnStopped self ev) = self\<lparr>Listeners := Listeners (fst (OnStopped self ev))\<rparr> \<and>
   (snd (OnStopped self ev) = Some 0 \<longleftrightarrow> dom (map_of (Listeners (fst (OnStopped self ev)))) = {}) \<and>
   (snd (OnStopped self ev) = None \<longleftrightarrow> dom (map_of (Listeners (fst (OnStopped self ev)))) \<noteq> {}) \<and>
   (ListenerId ev = A \<and> A \<noteq> B \<and> map_of (Listeners self) A \<noteq> None \<and>
    map_of (Listeners self) B \<noteq> None \<longrightarrow>
      snd (OnStopped self ev) = None \<and>
      map_of (Listeners (fst (OnStopped self ev))) A = None \<and>
      map_of (Listeners (fst (OnStopped self ev))) B = map_of (Listeners self) B) \<and>
   (ListenerId ev = A \<and> dom (map_of (Listeners self)) = {A} \<longrightarrow>
      snd (OnStopped self ev) = Some 0)"
proof -
  let ?ls = "AList.delete (ListenerId ev) (Listeners self)"
  have f: "fst (OnStopped self ev) = self\<lparr>Listeners := ?ls\<rparr>"
    by (simp add: OnStopped_def Let_def)
  have s: "snd (OnStopped self ev) = (if ?ls = [] then Some 0 else None)"
    by (simp add: OnStopped_def Let_def)
  have m: "map_of ?ls = (map_of (Listeners self))(ListenerId ev := None)"
    by (rule delete_conv')
  have d: "dom (map_of ?ls) = {} \<longleftrightarrow> ?ls = []"
    by (rule dom_map_of_empty)
  have c1: "map_of (Listeners (fst (OnStopped self ev))) =
      (map_of (Listeners self))(ListenerId ev := None)"
    using m by (simp add: f)
  have c2: "fst (OnStopped self ev) = self\<lparr>Listeners := Listeners (fst (OnStopped self ev))\<rparr>"
    by (simp add: f)
  have c3: "snd (OnStopped self ev) = Some 0 \<longleftrightarrow>
      dom (map_of (Listeners (fst (OnStopped self ev)))) = {}"
    using d by (simp add: f s)
  have c4: "snd (OnStopped self ev) = None \<longleftrightarrow>
      dom (map_of (Listeners (fst (OnStopped self ev)))) \<noteq> {}"
    using d by (simp add: f s)
  have c5: "ListenerId ev = A \<and> A \<noteq> B \<and> map_of (Listeners self) A \<noteq> None \<and>
    map_of (Listeners self) B \<noteq> None \<longrightarrow>
      snd (OnStopped self ev) = None \<and>
      map_of (Listeners (fst (OnStopped self ev))) A = None \<and>
      map_of (Listeners (fst (OnStopped self ev))) B = map_of (Listeners self) B"
  proof (intro impI)
    assume h: "ListenerId ev = A \<and> A \<noteq> B \<and> map_of (Listeners self) A \<noteq> None \<and>
      map_of (Listeners self) B \<noteq> None"
    then have "map_of (Listeners (fst (OnStopped self ev))) B \<noteq> None"
      by (auto simp: c1)
    then have "dom (map_of (Listeners (fst (OnStopped self ev)))) \<noteq> {}"
      by blast
    with c4 h show "snd (OnStopped self ev) = None \<and>
      map_of (Listeners (fst (OnStopped self ev))) A = None \<and>
      map_of (Listeners (fst (OnStopped self ev))) B = map_of (Listeners self) B"
      by (auto simp: c1)
  qed
  have c6: "ListenerId ev = A \<and> dom (map_of (Listeners self)) = {A} \<longrightarrow>
      snd (OnStopped self ev) = Some 0"
  proof (intro impI)
    assume h: "ListenerId ev = A \<and> dom (map_of (Listeners self)) = {A}"
    then have "dom (map_of (Listeners (fst (OnStopped self ev)))) = {}"
      by (simp add: c1)
    with c3 show "snd (OnStopped self ev) = Some 0"
      by simp
  qed
  from c1 c2 c3 c4 c5 c6 show ?thesis
    by (intro conjI)
qed


theorem OnStopped_removes_entry_exits_when_empty_witness:
  "OnStopped running_bot \<lparr>ListenerId = ''console''\<rparr> =
     (running_bot\<lparr>Listeners := [(''slack'', slack_config)]\<rparr>, None) \<and>
   OnStopped (running_bot\<lparr>Listeners := [(''slack'', slack_config)]\<rparr>) \<lparr>ListenerId = ''slack''\<rparr> =
     (running_bot\<lparr>Listeners := []\<rparr>, Some 0) \<and>
   map_of (Listeners running_bot) ''console'' \<noteq> None \<and>
   map_of (Listeners running_bot) ''slack'' \<noteq> None \<and>
   map_of (Listeners (fst (OnStopped running_bot \<lparr>ListenerId = ''console''\<rparr>))) ''slack'' =
     Some slack_config \<and>
   snd (OnStopped running_bot \<lparr>ListenerId = ''console''\<rparr>) = None \<and>
   dom (map_of (Listeners (running_bot\<lparr>Listeners := [(''slack'', slack_config)]\<rparr>))) = {''slack''} \<and>
   snd (OnStopped (running_bot\<lparr>Listeners := [(''slack'', slack_config)]\<rparr>)
     \<lparr>ListenerId = ''slack''\<rparr>) = Some 0"
proof -
  have e1: "OnStopped running_bot \<lparr>ListenerId = ''console''\<rparr> =
     (running_bot\<lparr>Listeners := [(''slack'', slack_config)]\<rparr>, None)"
    by (simp add: OnStopped_def Let_def running_bot_def AList.delete_eq)
  have e2: "OnStopped (running_bot\<lparr>Listeners := [(''slack'', slack_config)]\<rparr>)
      \<lparr>ListenerId = ''slack''\<rparr> = (running_bot\<lparr>Listeners := []\<rparr>, Some 0)"
    by (simp add: OnStopped_def Let_def running_bot_def AList.delete_eq)
  have a: "ListenerId \<lparr>ListenerId = ''console''\<rparr> = ''console'' \<and> ''console'' \<noteq> ''slack'' \<and>
      map_of (Listeners running_bot) ''console'' \<noteq> None \<and>
      map_of (Listeners running_bot) ''slack'' \<noteq> None"
    by (simp add: running_bot_def)
  have b: "ListenerId \<lparr>ListenerId = ''slack''\<rparr> = ''slack'' \<and>
      dom (map_of (Listeners (running_bot\<lparr>Listeners := [(''slack'', slack_config)]\<rparr>))) = {''slack''}"
    by simp
  have w1: "snd (OnStopped running_bot \<lparr>ListenerId = ''console''\<rparr>) = None \<and>
      map_of (Listeners (fst (OnStopped running_bot \<lparr>ListenerId = ''console''\<rparr>))) ''slack'' =
        map_of (Listeners running_bot) ''slack''"
    using OnStopped_removes_entry_exits_when_empty [of running_bot "\<lparr>ListenerId = ''console''\<rparr>"
        "''console''" "''slack''"] a
    by blast
  have w2: "snd (OnStopped (running_bot\<lparr>Listeners := [(''slack'', slack_config)]\<rparr>)
      \<lparr>ListenerId = ''slack''\<rparr>) = Some 0"
    using OnStopped_removes_entry_exits_when_empty
      [of "running_bot\<lparr>Listeners := [(''slack'', slack_config)]\<rparr>" "\<lparr>ListenerId = ''slack''\<rparr>"
        "''slack''" "''console''"] b
    by blast
  have s: "map_of (Listeners running_bot) ''slack'' = Some slack_config"
    by (simp add: running_bot_def)
  from e1 e2 a b w1 w2 s show ?thesis
    by simp
qed

subsection \<open>Activation\<close>

lemma update_fresh: "k \<notin> fst ` set al \<Longrightarrow> AList.update k v al = al @ [(k, v)]"
  by (induction al) auto

lemma map_of_None_iff: "map_of al k = None \<longleftrightarrow> k \<notin> fst ` set al"
  by (simp add: map_of_eq_None_iff)

lemma activated_Cons:
  "activated Create (l # ls) =
     (if listener_Enabled l \<and> Create l then l # activated Create ls else activated Create ls)"
  by (simp add: activated_def)

lemma StartAllBots_loop_prefix:
  assumes "\<forall>k<length pre. listener_Enabled (pre ! k) \<longrightarrow>
      listener_Id (pre ! k) \<notin> fst ` set (Listeners self) \<union>
        listener_Id ` set (activated Create (take k pre))"
  shows "StartAllBots_loop Create (pre @ rest) self effects =
    StartAllBots_loop Create rest
      (self\<lparr>Listeners := Listeners self @ map (\<lambda>l. (listener_Id l, l)) (activated Create pre)\<rparr>)
      (effects @ start_events (activated Create pre))"
  using assms
proof (induction pre arbitrary: self effects)
  case Nil
  show ?case by (simp add: activated_def start_events_def)
next
  case (Cons l pre)
  have tl: "\<forall>k<length pre. listener_Enabled (pre ! k) \<longrightarrow>
      listener_Id (pre ! k) \<notin> fst ` set (Listeners self) \<union>
        listener_Id ` set (activated Create (l # take k pre))"
  proof (intro allI impI)
    fix k assume "k < length pre" "listener_Enabled (pre ! k)"
    with Cons.prems [rule_format, of "Suc k"]
    show "listener_Id (pre ! k) \<notin> fst ` set (Listeners self) \<union>
        listener_Id ` set (activated Create (l # take k pre))"
      by simp
  qed
  show ?case
  proof (cases "listener_Enabled l")
    case False
    with tl have "\<forall>k<length pre. listener_Enabled (pre ! k) \<longrightarrow>
      listener_Id (pre ! k) \<notin> fst ` set (Listeners self) \<union>
        listener_Id ` set (activated Create (take k pre))"
      by (simp add: activated_Cons)
    from Cons.IH [OF this] False show ?thesis
      by (simp add: activated_Cons)
  next
    case True
    with Cons.prems [rule_format, of 0] have fresh: "listener_Id l \<notin> fst ` set (Listeners self)"
      by simp
    then have none: "map_of (Listeners self) (listener_Id l) = None"
      by (simp add: map_of_None_iff)
    show ?thesis
    proof (cases "Create l")
      case False
      with tl have "\<forall>k<length pre. listener_Enabled (pre ! k) \<longrightarrow>
        listener_Id (pre ! k) \<notin> fst ` set (Listeners self) \<union>
          listener_Id ` set (activated Create (take k pre))"
        by (simp add: activated_Cons)
      from Cons.IH [OF this] True False none show ?thesis
        by (simp add: activated_Cons)
    next
      case c: True
      let ?self1 = "self\<lparr>Listeners := AList.update (listener_Id l) l (Listeners self)\<rparr>"
      have l1: "Listeners ?self1 = Listeners self @ [(listener_Id l, l)]"
        using fresh by (simp add: update_fresh)
      from tl True c have "\<forall>k<length pre. listener_Enabled (pre ! k) \<longrightarrow>
        listener_Id (pre ! k) \<notin> fst ` set (Listeners ?self1) \<union>
          listener_Id ` set (activated Create (take k pre))"
        by (simp add: activated_Cons l1)
      from Cons.IH [OF this,
          of "effects @ [Go_ManageListener (listener_Id l), Start (listener_Id l)]"]
        True c none l1
      show ?thesis
        by (simp add: activated_Cons start_events_def)
    qed
  qed
qed

text \<open>
  C1, as the code has it: with the storage ready and no listener active yet, when an
  enabled registration repeats the id of an earlier registration that was activated
  (enabled, and constructed by the registry), \<^verbatim>\<open>StartAllBots\<close> exits with status 1 on
  reaching the first such registration. By then exactly the activated registrations before
  it have had their routing goroutine spawned and their \<^verbatim>\<open>Start()\<close> invoked, and they are the
  entries of the mapping; \<^verbatim>\<open>Start()\<close> is invoked neither for the repeating registration
  nor for any after it.
\<close>

theorem StartAllBots_exits_at_first_duplicate:
  assumes "DB_Ready self" and "Listeners self = []"
    and "BotsConfig_Listeners self = pre @ l # post"
    and "listener_Enabled l"
    and "listener_Id l \<in> listener_Id ` set (activated Create pre)"
    and "\<forall>k<length pre. listener_Enabled (pre ! k) \<longrightarrow>
      listener_Id (pre ! k) \<notin> listener_Id ` set (activated Create (take k pre))"
  shows "StartAllBots Create self =
    (self\<lparr>Listeners := map (\<lambda>l. (listener_Id l, l)) (activated Create pre)\<rparr>,
     start_events (activated Create pre), Some 1)"
proof -
  let ?self1 = "self\<lparr>Listeners := map (\<lambda>l. (listener_Id l, l)) (activated Create pre)\<rparr>"
  from assms(2,6) have "\<forall>k<length pre. listener_Enabled (pre ! k) \<longrightarrow>
      listener_Id (pre ! k) \<notin> fst ` set (Listeners self) \<union>
        listener_Id ` set (activated Create (take k pre))"
    by simp
  from StartAllBots_loop_prefix [OF this, of "l # post" "[]"] assms(2)
  have step: "StartAllBots_loop Create (pre @ l # post) self [] =
      StartAllBots_loop Create (l # post) ?self1 (start_events (activated Create pre))"
    by simp
  have "fst ` set (Listeners ?self1) = listener_Id ` set (activated Create pre)"
    by (simp add: image_image)
  with assms(5) have "map_of (Listeners ?self1) (listener_Id l) \<noteq> None"
    by (simp only: map_of_None_iff not_not)
  with assms(4)
  have "StartAllBots_loop Create (l # post) ?self1 (start_events (activated Create pre)) =
      (?self1, start_events (activated Create pre), Some 1)"
    by simp
  with step assms(1,3) show ?thesis
    by (simp add: StartAllBots_def)
qed

theorem StartAllBots_exits_at_first_duplicate_witness:
  "StartAllBots (\<lambda>l. True) duplicate_id_bot =
     (duplicate_id_bot\<lparr>Listeners := [(''console'', console_config), (''slack'', slack_config)]\<rparr>,
      [Go_ManageListener ''console'', Start ''console'', Go_ManageListener ''slack'', Start ''slack''],
      Some 1)"
proof -
  have a: "activated (\<lambda>l. True) [console_config, slack_config] = [console_config, slack_config]"
    by (simp add: activated_def console_config_def slack_config_def)
  have h1: "DB_Ready duplicate_id_bot" and h2: "Listeners duplicate_id_bot = []"
    and h3: "BotsConfig_Listeners duplicate_id_bot =
      [console_config, slack_config] @ console_config # []"
    and h4: "listener_Enabled console_config"
    by (simp_all add: duplicate_id_bot_def console_config_def)
  have h5: "listener_Id console_config \<in>
      listener_Id ` set (activated (\<lambda>l. True) [console_config, slack_config])"
    by (simp add: a)
  have h6: "\<forall>k<length [console_config, slack_config].
      listener_Enabled ([console_config, slack_config] ! k) \<longrightarrow>
      listener_Id ([console_config, slack_config] ! k) \<notin>
        listener_Id ` set (activated (\<lambda>l. True) (take k [console_config, slack_config]))"
  proof (intro allI impI)
    fix k assume "k < length [console_config, slack_config]"
    then have "k = 0 \<or> k = 1" by auto
    then show "listener_Id ([console_config, slack_config] ! k) \<notin>
        listener_Id ` set (activated (\<lambda>l. True) (take k [console_config, slack_config]))"
      by (auto simp: activated_def console_config_def slack_config_def)
  qed
  have ids: "listener_Id console_config = ''console''" "listener_Id slack_config = ''slack''"
    by (simp_all add: console_config_def slack_config_def)
  show ?thesis
    using StartAllBots_exits_at_first_duplicate [OF h1 h2 h3 h4 h5 h6]
    by (simp add: a start_events_def ids)
qed

text \<open>
  C1 as stated (the exit comes before any listener's \<^verbatim>\<open>Start()\<close>) fails: the check for a
  duplicate is made registration by registration, so the listeners before the repeated id
  are started before the process exits.
\<close>

theorem StartAllBots_starts_before_exit_counterexample:
  "\<not> distinct (map listener_Id (filter listener_Enabled (BotsConfig_Listeners duplicate_id_bot))) \<and>
   snd (snd (StartAllBots (\<lambda>l. True) duplicate_id_bot)) = Some 1 \<and>
   Start ''console'' \<in> set (fst (snd (StartAllBots (\<lambda>l. True) duplicate_id_bot)))"
  by (simp add: StartAllBots_def duplicate_id_bot_def console_config_def slack_config_def)

end
